theory Spec2Isabelle
  imports Main "HOL-Library.AList"
begin

section \<open>The terminal session of decky-terminal\<close>

text \<open>
  A shallow embedding of \<^verbatim>\<open>py_modules/decky_terminal/terminal.py\<close>: the class
  \<^verbatim>\<open>Terminal\<close>, the objects it holds references to (the subprocess, the
  subscriber streams) and the part of the operating system it talks to (file
  descriptors, the window size of the pseudo-terminal, signals).
  Every method takes the world and returns the world it leaves behind, together with
  the way it ended: by returning, or by raising. Assignments made before an exception
  is raised stay in the world returned, as they do in Python.
\<close>

subsection \<open>Data\<close>

type_synonym bytes = string

datatype exn =
  AttributeError | OSError | StructError | TypeError | KeyError | ValueError
  | ConnectionClosed

datatype outcome = Returned | Raised exn

datatype pyval = PyBool bool | PyInt int

datatype signal = SIGKILL | SIGWINCH

text \<open>
  \<^verbatim>\<open>asyncio.subprocess.Process\<close>, as far as the class reads it: the process id
  and the return code, which is \<^verbatim>\<open>None\<close> until the event loop has recorded the
  exit of the child.
\<close>

record process =
  pid :: int
  returncode :: "int option"

text \<open>
  \<^verbatim>\<open>master_fd: int\<close> and \<^verbatim>\<open>slave_fd: int\<close> are annotations without a value:
  the attribute does not exist before \<^verbatim>\<open>_start_process\<close> assigns it, and reading
  it raises \<^verbatim>\<open>AttributeError\<close>. Nothing assigns \<^verbatim>\<open>None\<close> to it.
\<close>

datatype fd_attr = Unset | Fd int

text \<open>A subscriber is a reference to a stream object; the registry holds references.\<close>

type_synonym ws_ref = nat

record terminal =
  cmdline :: string
  process :: "process option"
  master_fd :: fd_attr
  slave_fd :: fd_attr
  subscribers :: "ws_ref list"
  buffer :: bytes
  cols :: int
  rows :: int

text \<open>
  The stream object of a subscriber (\<^verbatim>\<open>WebSocketServerProtocol\<close>): whether it
  reports closed, and the messages sent to it so far, oldest first.
\<close>

record websocket =
  closed :: bool
  sent :: "bytes list"

text \<open>Coroutines handed to \<^verbatim>\<open>asyncio.ensure_future\<close>.\<close>

datatype task = Process_subscriber ws_ref | Read_output_loop

text \<open>
  The world: the \<^verbatim>\<open>Terminal\<close> object, the stream objects by reference, the open
  file descriptors, the window size set on the terminal device behind a descriptor,
  the bytes queued at the master side for reading, the writes made to the master, the
  signals sent to processes, the environment of the host process, the names of the
  terminal devices, whether the device accepts \<^verbatim>\<open>fsync\<close>, the children spawned
  (process id, command line, descriptor bound to stdin, stdout and stderr,
  environment), the tasks scheduled and the exceptions printed.
\<close>

record world =
  self :: terminal
  sockets :: "ws_ref \<Rightarrow> websocket"
  open_fds :: "int list"
  winsize :: "int \<Rightarrow> int list option"
  pending :: bytes
  written :: "(int \<times> bytes) list"
  signals :: "(int \<times> signal) list"
  environ :: "(string \<times> string) list"
  ttynames :: "int \<Rightarrow> string option"
  fsync_supported :: bool
  spawned :: "(int \<times> string \<times> int \<times> (string \<times> string) list) list"
  tasks :: "task list"
  printed :: "exn list"

subsection \<open>The ring buffer\<close>

text \<open>
  \<^verbatim>\<open>collections.deque([], maxlen=4096)\<close>. Appending to a deque puts the item at
  the right end and then, if the deque is longer than \<^verbatim>\<open>maxlen\<close>, drops one item
  from the left end.
\<close>

definition maxlen :: nat where
  "maxlen = 4096"

definition deque_append :: "'a \<Rightarrow> 'a list \<Rightarrow> 'a list" where
  "deque_append x d = (let d' = d @ [x] in if maxlen < length d' then tl d' else d')"

definition init :: "string option \<Rightarrow> terminal" where
  "init c =
     \<lparr>cmdline = (case c of None \<Rightarrow> ''/bin/bash'' | Some s \<Rightarrow> s),
      process = None, master_fd = Unset, slave_fd = Unset,
      subscribers = [], buffer = [], cols = 80, rows = 24\<rparr>"

definition put_buffer :: "bytes \<Rightarrow> terminal \<Rightarrow> terminal" where
  "put_buffer chars t = t\<lparr>buffer := fold deque_append chars (buffer t)\<rparr>"

subsection \<open>Liveness\<close>

definition is_process_started :: "terminal \<Rightarrow> bool" where
  "is_process_started t = (case process t of None \<Rightarrow> False | Some p \<Rightarrow> True)"

definition is_process_alive :: "terminal \<Rightarrow> bool" where
  "is_process_alive t =
     (if \<not> is_process_started t then False
      else case process t of
          None \<Rightarrow> False
        | Some p \<Rightarrow> (case returncode p of Some c \<Rightarrow> False | None \<Rightarrow> True))"

definition is_process_completed :: "terminal \<Rightarrow> bool" where
  "is_process_completed t = (\<not> is_process_alive t \<and> is_process_started t)"

subsection \<open>Status\<close>

text \<open>The dictionary \<^verbatim>\<open>serialize\<close> builds, as its items in insertion order.\<close>

definition serialize :: "terminal \<Rightarrow> (string \<times> pyval) list" where
  "serialize t =
     [(''is_started'', PyBool (is_process_started t)),
      (''is_completed'', PyBool (is_process_completed t))]
     @ (case process t of
          None \<Rightarrow> []
        | Some p \<Rightarrow>
            (''pid'', PyInt (pid p))
            # (case returncode p of None \<Rightarrow> [] | Some c \<Rightarrow> [(''exitcode'', PyInt c)]))"

subsection \<open>The registry\<close>

text \<open>
  \<^verbatim>\<open>list.index\<close> returns the position of the first equal item and raises
  \<^verbatim>\<open>ValueError\<close> when there is none. Stream objects compare by identity.
\<close>

fun list_index :: "'a list \<Rightarrow> 'a \<Rightarrow> exn + nat" where
  "list_index [] x = Inl ValueError"
| "list_index (y # ys) x =
     (if y = x then Inr 0
      else case list_index ys x of Inl e \<Rightarrow> Inl e | Inr i \<Rightarrow> Inr (Suc i))"

definition is_subscriber :: "terminal \<Rightarrow> ws_ref \<Rightarrow> bool" where
  "is_subscriber t ws = (case list_index (subscribers t) ws of Inr i \<Rightarrow> True | Inl e \<Rightarrow> False)"

definition ensure_future :: "task \<Rightarrow> world \<Rightarrow> world" where
  "ensure_future c w = w\<lparr>tasks := tasks w @ [c]\<rparr>"

definition add_subscriber :: "ws_ref \<Rightarrow> world \<Rightarrow> world" where
  "add_subscriber ws w =
     (if \<not> is_subscriber (self w) ws
      then ensure_future (Process_subscriber ws)
             (w\<lparr>self := (self w)\<lparr>subscribers := subscribers (self w) @ [ws]\<rparr>\<rparr>)
      else w)"

subsection \<open>Calls into the operating system and the runtime\<close>

text \<open>
  \<^verbatim>\<open>os.close\<close>, \<^verbatim>\<open>os.write\<close>, \<^verbatim>\<open>os.fsync\<close>, \<^verbatim>\<open>os.ttyname\<close> and
  \<^verbatim>\<open>fcntl.ioctl\<close> raise \<^verbatim>\<open>OSError\<close> on a descriptor that is not open.
\<close>

definition os_close :: "int \<Rightarrow> world \<Rightarrow> outcome \<times> world" where
  "os_close fd w =
     (if fd \<in> set (open_fds w) then (Returned, w\<lparr>open_fds := removeAll fd (open_fds w)\<rparr>)
      else (Raised OSError, w))"

definition os_write :: "int \<Rightarrow> bytes \<Rightarrow> world \<Rightarrow> outcome \<times> world" where
  "os_write fd data w =
     (if fd \<in> set (open_fds w) then (Returned, w\<lparr>written := written w @ [(fd, data)]\<rparr>)
      else (Raised OSError, w))"

definition os_fsync :: "int \<Rightarrow> world \<Rightarrow> outcome \<times> world" where
  "os_fsync fd w =
     (if fd \<in> set (open_fds w) \<and> fsync_supported w then (Returned, w) else (Raised OSError, w))"

definition os_ttyname :: "int \<Rightarrow> world \<Rightarrow> exn + string" where
  "os_ttyname fd w =
     (if fd \<in> set (open_fds w)
      then (case ttynames w fd of None \<Rightarrow> Inl OSError | Some name \<Rightarrow> Inr name)
      else Inl OSError)"

text \<open>
  \<^verbatim>\<open>struct.pack('HHHH', ...)\<close> packs four unsigned shorts and raises
  \<^verbatim>\<open>struct.error\<close> for a value outside \<open>0..65535\<close>. The four values stand for
  the eight bytes.
\<close>

definition struct_pack_HHHH :: "int \<Rightarrow> int \<Rightarrow> int \<Rightarrow> int \<Rightarrow> exn + int list" where
  "struct_pack_HHHH a b c d =
     (if list_all (\<lambda>v. 0 \<le> v \<and> v \<le> 65535) [a, b, c, d] then Inr [a, b, c, d]
      else Inl StructError)"

definition ioctl_TIOCSWINSZ :: "int \<Rightarrow> int list \<Rightarrow> world \<Rightarrow> outcome \<times> world" where
  "ioctl_TIOCSWINSZ fd new_size w =
     (if fd \<in> set (open_fds w) then (Returned, w\<lparr>winsize := (winsize w)(fd := Some new_size)\<rparr>)
      else (Raised OSError, w))"

text \<open>
  The methods \<^verbatim>\<open>kill\<close> and \<^verbatim>\<open>send_signal\<close> of the subprocess object send the
  signal and return \<^verbatim>\<open>None\<close>. They are ordinary methods, not coroutines, and
  they leave \<^verbatim>\<open>returncode\<close> as it is: the event loop records the exit later.
  Calling them on \<^verbatim>\<open>None\<close> raises \<^verbatim>\<open>AttributeError\<close>.
\<close>

definition process_send_signal :: "signal \<Rightarrow> world \<Rightarrow> outcome \<times> world" where
  "process_send_signal sig w =
     (case process (self w) of
        None \<Rightarrow> (Raised AttributeError, w)
      | Some p \<Rightarrow> (Returned, w\<lparr>signals := signals w @ [(pid p, sig)]\<rparr>))"

definition process_kill :: "world \<Rightarrow> outcome \<times> world" where
  "process_kill w = process_send_signal SIGKILL w"

text \<open>
  \<^verbatim>\<open>await\<close> applied to \<^verbatim>\<open>None\<close>, the value an ordinary method returned,
  raises \<^verbatim>\<open>TypeError\<close>: \<^verbatim>\<open>None\<close> is not awaitable.
\<close>

definition await_None :: "world \<Rightarrow> outcome \<times> world" where
  "await_None w = (Raised TypeError, w)"

text \<open>
  The stream: \<^verbatim>\<open>send\<close> raises \<^verbatim>\<open>ConnectionClosed\<close> on a closed stream and
  delivers the message otherwise; \<^verbatim>\<open>close\<close> makes the stream report closed.
  Both are coroutines of the stream object.
\<close>

definition ws_send :: "ws_ref \<Rightarrow> bytes \<Rightarrow> world \<Rightarrow> outcome \<times> world" where
  "ws_send ws data w =
     (if closed (sockets w ws) then (Raised ConnectionClosed, w)
      else (Returned,
            w\<lparr>sockets := (sockets w)(ws := (sockets w ws)\<lparr>sent := sent (sockets w ws) @ [data]\<rparr>)\<rparr>))"

definition ws_close :: "ws_ref \<Rightarrow> world \<Rightarrow> outcome \<times> world" where
  "ws_close ws w = (Returned, w\<lparr>sockets := (sockets w)(ws := (sockets w ws)\<lparr>closed := True\<rparr>)\<rparr>)"

text \<open>
  Calling a coroutine function builds a coroutine object and runs nothing of its body;
  the body runs when the object is awaited or scheduled. A call whose result is
  dropped, as in the statement \<^verbatim>\<open>ws.close()\<close>, leaves the world as it is.
\<close>

definition unawaited :: "(world \<Rightarrow> outcome \<times> world) \<Rightarrow> world \<Rightarrow> world" where
  "unawaited coro w = w"

definition print :: "exn \<Rightarrow> world \<Rightarrow> world" where
  "print e w = w\<lparr>printed := printed w @ [e]\<rparr>"

text \<open>One statement after the other: the second runs if the first returned.\<close>

definition and_then ::
  "(world \<Rightarrow> outcome \<times> world) \<Rightarrow> (world \<Rightarrow> outcome \<times> world) \<Rightarrow> world \<Rightarrow> outcome \<times> world"
where
  "and_then f g w = (case f w of (Returned, w') \<Rightarrow> g w' | (Raised e, w') \<Rightarrow> (Raised e, w'))"

subsection \<open>Formatting integers\<close>

fun digits :: "nat \<Rightarrow> string" where
  "digits n =
     (if n < 10 then [''0123456789'' ! n]
      else digits (n div 10) @ [''0123456789'' ! (n mod 10)])"

declare digits.simps [simp del]

definition py_str :: "int \<Rightarrow> string" where
  "py_str i = (if i < 0 then CHR ''-'' # digits (nat (- i)) else digits (nat i))"

subsection \<open>Window size\<close>

definition change_pty_size :: "int \<Rightarrow> int \<Rightarrow> world \<Rightarrow> outcome \<times> world" where
  "change_pty_size r c w =
     (let w1 = w\<lparr>self := (self w)\<lparr>rows := r, cols := c\<rparr>\<rparr> in
      case master_fd (self w1) of
        Unset \<Rightarrow> (Raised AttributeError, w1)
      | Fd fd \<Rightarrow>
          (case struct_pack_HHHH r c 0 0 of
             Inl e \<Rightarrow> (Raised e, w1)
           | Inr new_size \<Rightarrow> ioctl_TIOCSWINSZ fd new_size w1))"

definition write_stdin :: "bytes \<Rightarrow> world \<Rightarrow> outcome \<times> world" where
  "write_stdin input w =
     and_then
       (\<lambda>w. case master_fd (self w) of
               Unset \<Rightarrow> (Raised AttributeError, w) | Fd fd \<Rightarrow> os_write fd input w)
       (\<lambda>w. case master_fd (self w) of
               Unset \<Rightarrow> (Raised AttributeError, w) | Fd fd \<Rightarrow> os_fsync fd w)
       w"

text \<open>\<^verbatim>\<open>b'\x1b[8;%d;%dt' % (rows, cols)\<close>\<close>

definition resize_sequence :: "int \<Rightarrow> int \<Rightarrow> bytes" where
  "resize_sequence r c = CHR 0x1B # ''[8;'' @ py_str r @ '';'' @ py_str c @ ''t''"

text \<open>
  In \<^verbatim>\<open>await self.process.send_signal(signal.SIGWINCH)\<close> the method call sends
  the signal and returns \<^verbatim>\<open>None\<close>, and then \<^verbatim>\<open>await\<close> is applied to that.
\<close>

definition change_window_size :: "int \<Rightarrow> int \<Rightarrow> world \<Rightarrow> outcome \<times> world" where
  "change_window_size r c w =
     (if is_process_alive (self w)
      then and_then (change_pty_size r c)
             (and_then (and_then (process_send_signal SIGWINCH) await_None)
                (write_stdin (resize_sequence r c))) w
      else (Returned, w))"

subsection \<open>Starting and killing the process\<close>

text \<open>
  What the operating system answers while the process is started: the pair of
  descriptors of the new pseudo-terminal, and the process id of the child, or an error.
\<close>

record os_answers =
  openpty_answer :: "exn + int \<times> int"
  spawn_answer :: "exn + int"

definition get_terminal_env :: "world \<Rightarrow> exn + (string \<times> string) list" where
  "get_terminal_env w =
     (let result = AList.update ''TERM'' ''xterm-256color'' (environ w) in
      case map_of result ''HOME'' of
        None \<Rightarrow> Inl KeyError
      | Some home \<Rightarrow>
          (let result = AList.update ''PWD'' home result in
           case slave_fd (self w) of
             Unset \<Rightarrow> Inl AttributeError
           | Fd fd \<Rightarrow>
               (case os_ttyname fd w of
                  Inl e \<Rightarrow> Inl e
                | Inr name \<Rightarrow>
                    Inr (AList.update ''COLUMNS'' (py_str (cols (self w)))
                          (AList.update ''LINES'' (py_str (rows (self w)))
                            (AList.update ''SSH_TTY'' name result))))))"

definition start_process :: "os_answers \<Rightarrow> world \<Rightarrow> outcome \<times> world" where
  "start_process a w =
     (case openpty_answer a of
        Inl e \<Rightarrow> (Raised e, w)
      | Inr (m, s) \<Rightarrow>
          (let w1 = w\<lparr>open_fds := open_fds w @ [m, s],
                      self := (self w)\<lparr>master_fd := Fd m, slave_fd := Fd s\<rparr>\<rparr> in
           case change_pty_size (rows (self w1)) (cols (self w1)) w1 of
             (Raised e, w2) \<Rightarrow> (Raised e, w2)
           | (Returned, w2) \<Rightarrow>
               (case slave_fd (self w2) of
                  Unset \<Rightarrow> (Raised AttributeError, w2)
                | Fd sfd \<Rightarrow>
                    (case get_terminal_env w2 of
                       Inl e \<Rightarrow> (Raised e, w2)
                     | Inr env \<Rightarrow>
                         (case spawn_answer a of
                            Inl e \<Rightarrow> (Raised e, w2)
                          | Inr p \<Rightarrow>
                              (Returned,
                               ensure_future Read_output_loop
                                 (w2\<lparr>self := (self w2)\<lparr>process := Some \<lparr>pid = p, returncode = None\<rparr>\<rparr>,
                                     spawned := spawned w2 @ [(p, cmdline (self w2), sfd, env)]\<rparr>)))))))"

definition start :: "os_answers \<Rightarrow> world \<Rightarrow> outcome \<times> world" where
  "start a w = start_process a w"

definition close_fd_attr :: "fd_attr \<Rightarrow> world \<Rightarrow> outcome \<times> world" where
  "close_fd_attr a w = (case a of Unset \<Rightarrow> (Raised AttributeError, w) | Fd fd \<Rightarrow> os_close fd w)"

definition kill_process :: "world \<Rightarrow> outcome \<times> world" where
  "kill_process w =
     and_then (\<lambda>w. if is_process_alive (self w) then process_kill w else (Returned, w))
       (\<lambda>w. case and_then (\<lambda>w. close_fd_attr (master_fd (self w)) w)
                     (\<lambda>w. close_fd_attr (slave_fd (self w)) w) w of
               (Returned, w') \<Rightarrow> (Returned, w')
             | (Raised e, w') \<Rightarrow> (Returned, print e w'))
       w"

subsection \<open>Subscribers\<close>

definition remove_subscriber :: "ws_ref \<Rightarrow> world \<Rightarrow> world" where
  "remove_subscriber ws w =
     (if is_subscriber (self w) ws
      then (let w1 = w\<lparr>self := (self w)\<lparr>subscribers := remove1 ws (subscribers (self w))\<rparr>\<rparr> in
            if \<not> closed (sockets w1 ws) then unawaited (ws_close ws) w1 else w1)
      else w)"

text \<open>
  The first loop of \<^verbatim>\<open>broadcast_subscribers\<close>, over the subscribers still to
  visit, with the list \<^verbatim>\<open>closed\<close> collected so far.
\<close>

fun broadcast_loop ::
  "bytes \<Rightarrow> ws_ref list \<Rightarrow> ws_ref list \<Rightarrow> world \<Rightarrow> outcome \<times> ws_ref list \<times> world"
where
  "broadcast_loop data [] cl w = (Returned, cl, w)"
| "broadcast_loop data (ws # rest) cl w =
     (if closed (sockets w ws) then broadcast_loop data rest (cl @ [ws]) w
      else case ws_send ws data w of
          (Raised e, w') \<Rightarrow> (Raised e, cl, w')
        | (Returned, w') \<Rightarrow> broadcast_loop data rest cl w')"

definition broadcast_subscribers :: "bytes \<Rightarrow> world \<Rightarrow> outcome \<times> world" where
  "broadcast_subscribers data w =
     (case broadcast_loop data (subscribers (self w)) [] w of
        (Raised e, cl, w') \<Rightarrow> (Raised e, w')
      | (Returned, cl, w') \<Rightarrow> (Returned, fold remove_subscriber cl w'))"

fun close_subscribers_loop :: "ws_ref list \<Rightarrow> world \<Rightarrow> world" where
  "close_subscribers_loop [] w = w"
| "close_subscribers_loop (ws # rest) w =
     close_subscribers_loop rest
       (if \<not> closed (sockets w ws) then unawaited (ws_close ws) w else w)"

definition close_subscribers :: "world \<Rightarrow> outcome \<times> world" where
  "close_subscribers w = (Returned, close_subscribers_loop (subscribers (self w)) w)"

definition shutdown :: "world \<Rightarrow> outcome \<times> world" where
  "shutdown w =
     and_then kill_process
       (and_then close_subscribers
          (\<lambda>w. (Returned, w\<lparr>self := (self w)\<lparr>subscribers := []\<rparr>\<rparr>))) w"

text \<open>
  \<^verbatim>\<open>_process_subscriber\<close> up to its loop: the snapshot of the buffer is sent, and
  the process is started if it never was. The loop that follows receives messages and
  writes them to the terminal; it sends nothing to the subscriber.
\<close>

definition process_subscriber_begin :: "os_answers \<Rightarrow> ws_ref \<Rightarrow> world \<Rightarrow> outcome \<times> world" where
  "process_subscriber_begin a ws w =
     and_then (\<lambda>w. ws_send ws (buffer (self w)) w)
       (\<lambda>w. if \<not> is_process_started (self w) then start a w else (Returned, w)) w"

text \<open>
  What one message received from the subscriber is: bytes, text (held here as its
  UTF-8 encoding), or the end of the connection, at which \<^verbatim>\<open>recv\<close> raises and
  the stream reports closed from then on.
\<close>

datatype recv_event = Recv_bytes bytes | Recv_text string | Recv_closed

datatype loop_end = Finished | Suspended

definition ws_recv :: "recv_event \<Rightarrow> ws_ref \<Rightarrow> world \<Rightarrow> (exn + bytes) \<times> world" where
  "ws_recv ev ws w =
     (case ev of
        Recv_bytes b \<Rightarrow> (Inr b, w)
      | Recv_text s \<Rightarrow> (Inr s, w)
      | Recv_closed \<Rightarrow>
          (Inl ConnectionClosed,
           w\<lparr>sockets := (sockets w)(ws := (sockets w ws)\<lparr>closed := True\<rparr>)\<rparr>))"

definition process_subscriber_iteration :: "recv_event \<Rightarrow> ws_ref \<Rightarrow> world \<Rightarrow> world" where
  "process_subscriber_iteration ev ws w =
     (case ws_recv ev ws w of
        (Inl e, w1) \<Rightarrow> print e w1
      | (Inr data, w1) \<Rightarrow>
          (case write_stdin data w1 of
             (Raised e, w2) \<Rightarrow> print e w2
           | (Returned, w2) \<Rightarrow> w2))"

text \<open>
  The loop runs as long as messages arrive; where the script of messages ends with
  the stream open, the task is suspended in \<^verbatim>\<open>recv\<close>.
\<close>

fun process_subscriber_loop :: "recv_event list \<Rightarrow> ws_ref \<Rightarrow> world \<Rightarrow> loop_end \<times> world" where
  "process_subscriber_loop [] ws w =
     (if \<not> closed (sockets w ws) then (Suspended, w) else (Finished, w))"
| "process_subscriber_loop (ev # evs) ws w =
     (if \<not> closed (sockets w ws)
      then process_subscriber_loop evs ws (process_subscriber_iteration ev ws w)
      else (Finished, w))"

subsection \<open>The output pump\<close>

text \<open>
  One turn of the pump, as the world outside decides it: what the child wrote to the
  terminal before the read returned, whether the read failed on the device, and the
  exit code the event loop recorded while the pump was suspended in
  \<^verbatim>\<open>asyncio.sleep(0)\<close>, if the child exited.
\<close>

record pump_event =
  child_output :: bytes
  read_fails :: bool
  child_exit :: "int option"

text \<open>\<^verbatim>\<open>os.read(fd, n)\<close> takes at most \<open>n\<close> of the bytes queued and leaves the rest.\<close>

definition os_read :: "int \<Rightarrow> nat \<Rightarrow> pump_event \<Rightarrow> world \<Rightarrow> (exn + bytes) \<times> world" where
  "os_read fd n ev w =
     (let w1 = w\<lparr>pending := pending w @ child_output ev\<rparr> in
      if fd \<in> set (open_fds w1) \<and> \<not> read_fails ev
      then (Inr (take n (pending w1)), w1\<lparr>pending := drop n (pending w1)\<rparr>)
      else (Inl OSError, w1))"

definition read_output :: "pump_event \<Rightarrow> world \<Rightarrow> outcome \<times> world" where
  "read_output ev w =
     (case master_fd (self w) of
        Unset \<Rightarrow> (Raised AttributeError, w)
      | Fd fd \<Rightarrow>
          (case os_read fd 50 ev w of
             (Inl e, w1) \<Rightarrow> (Raised e, w1)
           | (Inr output, w1) \<Rightarrow>
               if length output > 0
               then broadcast_subscribers output (w1\<lparr>self := put_buffer output (self w1)\<rparr>)
               else (Returned, w1)))"

definition record_exit :: "int option \<Rightarrow> world \<Rightarrow> world" where
  "record_exit x w =
     (case (x, process (self w)) of
        (Some c, Some p) \<Rightarrow>
          (if returncode p = None
           then w\<lparr>self := (self w)\<lparr>process := Some (p\<lparr>returncode := Some c\<rparr>)\<rparr>\<rparr>
           else w)
      | _ \<Rightarrow> w)"

definition read_output_iteration :: "pump_event \<Rightarrow> world \<Rightarrow> world" where
  "read_output_iteration ev w =
     record_exit (child_exit ev)
       (case read_output ev w of
          (Raised e, w1) \<Rightarrow> print e w1
        | (Returned, w1) \<Rightarrow> w1)"

fun read_output_loop :: "pump_event list \<Rightarrow> world \<Rightarrow> loop_end \<times> world" where
  "read_output_loop [] w =
     (if is_process_alive (self w) then (Suspended, w) else (Finished, w))"
| "read_output_loop (ev # evs) w =
     (if is_process_alive (self w) then read_output_loop evs (read_output_iteration ev w)
      else (Finished, w))"


subsection \<open>A new session\<close>

text \<open>
  The world right after \<^verbatim>\<open>Terminal(None)\<close> was constructed, with every stream
  open and nothing sent yet, no descriptor open and no child.
\<close>

definition new_world :: world where
  "new_world =
     \<lparr>self = init None,
      sockets = (\<lambda>ws. \<lparr>closed = False, sent = []\<rparr>),
      open_fds = [], winsize = (\<lambda>fd. None), pending = [], written = [], signals = [],
      environ = [(''HOME'', ''/home/deck'')], ttynames = (\<lambda>fd. Some ''/dev/pts/0''),
      fsync_supported = False, spawned = [], tasks = [], printed = []\<rparr>"

text \<open>
  The operating system hands out the descriptors 5 and 6 and the process id 1234; the
  running world is the new one after subscriber 0 was attached and its task ran up to
  its loop, which started the process.
\<close>

definition good_answers :: os_answers where
  "good_answers = \<lparr>openpty_answer = Inr (5, 6), spawn_answer = Inr 1234\<rparr>"

definition running_world :: world where
  "running_world = snd (process_subscriber_begin good_answers 0 (add_subscriber 0 new_world))"

text \<open>
  What a broadcast of \<open>data\<close> over the registry \<open>subs\<close> makes of the streams: an open
  stream has received \<open>data\<close> once for each of its entries in the registry, and a
  closed one nothing.
\<close>

definition deliver :: "bytes \<Rightarrow> ws_ref list \<Rightarrow> (ws_ref \<Rightarrow> websocket) \<Rightarrow> ws_ref \<Rightarrow> websocket" where
  "deliver data subs socks ws =
     (if closed (socks ws) then socks ws
      else (socks ws)\<lparr>sent := sent (socks ws) @ replicate (count_list subs ws) data\<rparr>)"

text \<open>
  The running world with a second subscriber, 1, in the registry, whose stream was
  closed from outside.
\<close>

definition two_subscribers :: world where
  "two_subscribers = snd (ws_close 1 (add_subscriber 1 running_world))"

text \<open>Turns of the pump: the child prints \<open>hello\<close>; the read fails; the child exits.\<close>

definition ev_hello :: pump_event where
  "ev_hello = \<lparr>child_output = ''hello'', read_fails = False, child_exit = None\<rparr>"

definition ev_error :: pump_event where
  "ev_error = \<lparr>child_output = [], read_fails = True, child_exit = None\<rparr>"

definition ev_exit :: pump_event where
  "ev_exit = \<lparr>child_output = [], read_fails = False, child_exit = Some 0\<rparr>"




section \<open>Properties\<close>

subsection \<open>The ring buffer keeps the most recent bytes\<close>

lemma deque_append_drop:
  "length d \<le> maxlen \<Longrightarrow> deque_append x d = drop (Suc (length d) - maxlen) (d @ [x])"
proof (cases "length d = maxlen")
  case True
  then have "Suc (length d) - maxlen = Suc 0" by simp
  moreover have "deque_append x d = tl (d @ [x])"
    using True by (simp add: deque_append_def)
  ultimately show ?thesis by (simp add: drop_Suc del: drop_append)
next
  case False
  assume "length d \<le> maxlen"
  with False have "length d < maxlen" by simp
  then show ?thesis by (simp add: deque_append_def)
qed

lemma drop_drop_app:
  "k \<le> length xs \<Longrightarrow> drop n (drop k xs @ ys) = drop (k + n) (xs @ ys)"
proof -
  assume "k \<le> length xs"
  then have "drop k xs @ ys = drop k (xs @ ys)" by simp
  then show ?thesis by (simp only: drop_drop add.commute)
qed

lemma fold_deque_append:
  "length d \<le> maxlen \<Longrightarrow>
   fold deque_append cs d = drop (length d + length cs - maxlen) (d @ cs)"
proof (induction cs arbitrary: d)
  case Nil
  then show ?case by simp
next
  case (Cons c cs)
  let ?k = "Suc (length d) - maxlen"
  have step: "deque_append c d = drop ?k (d @ [c])"
    using Cons.prems by (rule deque_append_drop)
  have len: "length (deque_append c d) = Suc (length d) - ?k"
    by (simp add: step)
  have le: "length (deque_append c d) \<le> maxlen"
    using Cons.prems by (simp add: len)
  have "fold deque_append (c # cs) d = fold deque_append cs (deque_append c d)"
    by simp
  also have "\<dots> = drop (length (deque_append c d) + length cs - maxlen) (deque_append c d @ cs)"
    using le by (rule Cons.IH)
  also have "\<dots> = drop (?k + (length (deque_append c d) + length cs - maxlen)) ((d @ [c]) @ cs)"
    unfolding step by (rule drop_drop_app) simp
  also have "?k + (length (deque_append c d) + length cs - maxlen)
      = length d + length (c # cs) - maxlen"
    using Cons.prems unfolding len by (cases "length d = maxlen") auto
  finally show ?case by simp
qed

lemma fold_put_buffer:
  "fold put_buffer chunks t = t\<lparr>buffer := fold deque_append (concat chunks) (buffer t)\<rparr>"
  by (induction chunks arbitrary: t) (simp_all add: put_buffer_def)

text \<open>
  Claim C2. Whatever chunks of bytes are put into the buffer of a new session, one
  after the other, the buffer then holds the last \<open>min n 4096\<close> bytes of their
  concatenation, \<open>n\<close> being its length, in their order: the oldest bytes went first.
\<close>

theorem ring_buffer_keeps_last_4096:
  "buffer (fold put_buffer chunks (init c))
     = drop (length (concat chunks) - min (length (concat chunks)) 4096) (concat chunks)"
proof -
  have "buffer (fold put_buffer chunks (init c)) = fold deque_append (concat chunks) []"
    by (simp add: fold_put_buffer init_def)
  also have "\<dots> = drop (length ([]::bytes) + length (concat chunks) - maxlen) ([] @ concat chunks)"
    by (rule fold_deque_append) simp
  also have "length ([]::bytes) + length (concat chunks) - maxlen
      = length (concat chunks) - min (length (concat chunks)) 4096"
    by (simp add: maxlen_def min_def)
  finally show ?thesis by simp
qed

subsection \<open>Status\<close>

lemma is_started_iff: "is_process_started t = (process t \<noteq> None)"
  by (simp add: is_process_started_def split: option.splits)

lemma is_alive_iff:
  "is_process_alive t = (\<exists>p. process t = Some p \<and> returncode p = None)"
  by (auto simp: is_process_alive_def is_process_started_def split: option.splits)

lemma is_completed_iff:
  "is_process_completed t = (\<exists>p c. process t = Some p \<and> returncode p = Some c)"
  by (auto simp: is_process_completed_def is_alive_iff is_started_iff)

text \<open>
  Claim C9. \<open>serialize\<close> returns a dictionary that always has \<open>is_started\<close> and
  \<open>is_completed\<close>; it has \<open>pid\<close> exactly when a process was ever created and
  \<open>exitcode\<close> exactly when that process has a recorded exit code; \<open>is_started\<close>
  says whether a process was ever created, \<open>is_completed\<close> whether one was and its
  exit code is recorded; the values of \<open>pid\<close> and \<open>exitcode\<close> are the ones of the
  process, and there is no other key.
\<close>

theorem serialize_status:
  "map_of (serialize t) ''is_started'' = Some (PyBool (process t \<noteq> None))
   \<and> map_of (serialize t) ''is_completed''
       = Some (PyBool (\<exists>p c. process t = Some p \<and> returncode p = Some c))
   \<and> (map_of (serialize t) ''pid'' \<noteq> None) = (process t \<noteq> None)
   \<and> (map_of (serialize t) ''exitcode'' \<noteq> None)
       = (\<exists>p c. process t = Some p \<and> returncode p = Some c)
   \<and> map_of (serialize t) ''pid'' = map_option (\<lambda>p. PyInt (pid p)) (process t)
   \<and> map_of (serialize t) ''exitcode''
       = (case process t of None \<Rightarrow> None | Some p \<Rightarrow> map_option PyInt (returncode p))
   \<and> set (map fst (serialize t))
       = {''is_started'', ''is_completed''}
         \<union> (if process t \<noteq> None then {''pid''} else {})
         \<union> (if \<exists>p c. process t = Some p \<and> returncode p = Some c then {''exitcode''} else {})"
proof (cases "process t")
  case None
  then show ?thesis
    by (simp add: serialize_def is_started_iff is_completed_iff)
next
  case (Some p)
  then show ?thesis
    by (cases "returncode p") (simp_all add: serialize_def is_started_iff is_completed_iff insert_commute)
qed

subsection \<open>The registry\<close>

lemma list_index_Inl: "(\<exists>e. list_index xs x = Inl e) = (x \<notin> set xs)"
  by (induction xs) (auto split: sum.splits)

lemma is_subscriber_iff: "is_subscriber t ws = (ws \<in> set (subscribers t))"
  using list_index_Inl [of "subscribers t" ws]
  by (auto simp: is_subscriber_def split: sum.splits)

lemma add_subscriber_distinct:
  "distinct (subscribers (self w)) \<Longrightarrow> distinct (subscribers (self (add_subscriber ws w)))"
  by (simp add: add_subscriber_def is_subscriber_iff ensure_future_def)

lemma add_subscriber_member:
  "ws \<in> set (subscribers (self (add_subscriber ws w)))"
  by (simp add: add_subscriber_def is_subscriber_iff ensure_future_def)

lemma add_subscriber_idem:
  "add_subscriber ws (add_subscriber ws w) = add_subscriber ws w"
  using add_subscriber_member [of ws w]
  by (simp add: add_subscriber_def [of ws "add_subscriber ws w"] is_subscriber_iff)

lemma fold_add_subscriber_distinct:
  "distinct (subscribers (self w)) \<Longrightarrow> distinct (subscribers (self (fold add_subscriber wss w)))"
  by (induction wss arbitrary: w) (simp_all add: add_subscriber_distinct)

lemma distinct_count_list: "distinct xs \<Longrightarrow> x \<in> set xs \<Longrightarrow> count_list xs x = 1"
  by (induction xs) auto

text \<open>
  Claim C8. Attaching a subscriber a second time changes nothing: neither the registry
  nor the tasks scheduled. In a registry without duplicates the subscriber then has
  exactly one entry and the registry still has no duplicates; and after any sequence
  of attachments to a new session no subscriber is in the registry twice.
\<close>

theorem add_subscriber_twice:
  "add_subscriber ws (add_subscriber ws w) = add_subscriber ws w
   \<and> (distinct (subscribers (self w)) \<longrightarrow>
        distinct (subscribers (self (add_subscriber ws (add_subscriber ws w))))
        \<and> count_list (subscribers (self (add_subscriber ws (add_subscriber ws w)))) ws = 1)
   \<and> distinct (subscribers (self (fold add_subscriber wss (w\<lparr>self := init c\<rparr>))))"
proof (intro conjI impI)
  show "add_subscriber ws (add_subscriber ws w) = add_subscriber ws w"
    by (rule add_subscriber_idem)
next
  assume d: "distinct (subscribers (self w))"
  then show d': "distinct (subscribers (self (add_subscriber ws (add_subscriber ws w))))"
    by (simp add: add_subscriber_idem add_subscriber_distinct)
  then show "count_list (subscribers (self (add_subscriber ws (add_subscriber ws w)))) ws = 1"
    by (rule distinct_count_list) (rule add_subscriber_member)
next
  show "distinct (subscribers (self (fold add_subscriber wss (w\<lparr>self := init c\<rparr>))))"
    by (rule fold_add_subscriber_distinct) (simp add: init_def)
qed

theorem add_subscriber_twice_witness:
  "distinct (subscribers (self new_world))
   \<and> subscribers (self (add_subscriber 7 (add_subscriber 7 new_world))) = [7]
   \<and> tasks (add_subscriber 7 (add_subscriber 7 new_world)) = [Process_subscriber 7]
   \<and> count_list (subscribers (self (add_subscriber 7 (add_subscriber 7 new_world)))) 7 = 1"
proof -
  have d: "distinct (subscribers (self new_world))"
    by (simp add: new_world_def init_def)
  have one: "add_subscriber 7 new_world
      = new_world\<lparr>self := (self new_world)\<lparr>subscribers := [7]\<rparr>, tasks := [Process_subscriber 7]\<rparr>"
    by (simp add: add_subscriber_def is_subscriber_def ensure_future_def new_world_def init_def)
  from add_subscriber_twice [of 7 new_world "[]" None] d one show ?thesis
    by simp
qed

subsection \<open>Shutdown\<close>

lemma process_kill_eq:
  "is_process_alive (self w) \<Longrightarrow>
   process_kill w
     = (Returned, w\<lparr>signals := signals w @ [(pid (the (process (self w))), SIGKILL)]\<rparr>)"
  by (auto simp: is_alive_iff process_kill_def process_send_signal_def)

lemma kill_step:
  "(if is_process_alive (self w) then process_kill w else (Returned, w))
     = (Returned, w\<lparr>signals := (if is_process_alive (self w)
          then signals w @ [(pid (the (process (self w))), SIGKILL)] else signals w)\<rparr>)"
  by (simp add: process_kill_eq)

lemma close_fd_attr_frame:
  "\<exists>x f. close_fd_attr a v = (x, v\<lparr>open_fds := f\<rparr>)"
proof (cases a)
  case Unset
  have "close_fd_attr a v = (Raised AttributeError, v\<lparr>open_fds := open_fds v\<rparr>)"
    using Unset by (simp add: close_fd_attr_def)
  then show ?thesis by blast
next
  case (Fd fd)
  show ?thesis
  proof (cases "fd \<in> set (open_fds v)")
    case True
    with Fd have "close_fd_attr a v = (Returned, v\<lparr>open_fds := removeAll fd (open_fds v)\<rparr>)"
      by (simp add: close_fd_attr_def os_close_def)
    then show ?thesis by blast
  next
    case False
    with Fd have "close_fd_attr a v = (Raised OSError, v\<lparr>open_fds := open_fds v\<rparr>)"
      by (simp add: close_fd_attr_def os_close_def)
    then show ?thesis by blast
  qed
qed

lemma close_both_frame:
  "\<exists>x f. and_then (\<lambda>w. close_fd_attr (master_fd (self w)) w)
            (\<lambda>w. close_fd_attr (slave_fd (self w)) w) v = (x, v\<lparr>open_fds := f\<rparr>)"
proof -
  obtain x1 f1 where 1: "close_fd_attr (master_fd (self v)) v = (x1, v\<lparr>open_fds := f1\<rparr>)"
    using close_fd_attr_frame by blast
  show ?thesis
  proof (cases x1)
    case Returned
    obtain x2 f2 where 2: "close_fd_attr (slave_fd (self v)) (v\<lparr>open_fds := f1\<rparr>)
        = (x2, v\<lparr>open_fds := f1, open_fds := f2\<rparr>)"
      using close_fd_attr_frame by blast
    have "and_then (\<lambda>w. close_fd_attr (master_fd (self w)) w)
            (\<lambda>w. close_fd_attr (slave_fd (self w)) w) v = (x2, v\<lparr>open_fds := f2\<rparr>)"
      using 1 2 Returned by (simp add: and_then_def)
    then show ?thesis by blast
  next
    case (Raised e)
    have "and_then (\<lambda>w. close_fd_attr (master_fd (self w)) w)
            (\<lambda>w. close_fd_attr (slave_fd (self w)) w) v = (x1, v\<lparr>open_fds := f1\<rparr>)"
      using 1 Raised by (simp add: and_then_def)
    then show ?thesis by blast
  qed
qed

lemma and_then_Returned: "f w = (Returned, w') \<Longrightarrow> and_then f g w = g w'"
  by (simp add: and_then_def)

lemma and_then_Raised: "f w = (Raised e, w') \<Longrightarrow> and_then f g w = (Raised e, w')"
  by (simp add: and_then_def)

lemma kill_process_frame:
  "\<exists>s f p. kill_process w = (Returned, w\<lparr>signals := s, open_fds := f, printed := p\<rparr>)"
proof -
  define s where "s = (if is_process_alive (self w)
          then signals w @ [(pid (the (process (self w))), SIGKILL)] else signals w)"
  obtain x f where c: "and_then (\<lambda>w. close_fd_attr (master_fd (self w)) w)
            (\<lambda>w. close_fd_attr (slave_fd (self w)) w) (w\<lparr>signals := s\<rparr>)
         = (x, w\<lparr>signals := s, open_fds := f\<rparr>)"
    using close_both_frame by blast
  have "(if is_process_alive (self w) then process_kill w else (Returned, w))
      = (Returned, w\<lparr>signals := s\<rparr>)"
    unfolding s_def by (rule kill_step)
  then have "kill_process w =
      (case and_then (\<lambda>w. close_fd_attr (master_fd (self w)) w)
            (\<lambda>w. close_fd_attr (slave_fd (self w)) w) (w\<lparr>signals := s\<rparr>) of
         (Returned, w') \<Rightarrow> (Returned, w')
       | (Raised e, w') \<Rightarrow> (Returned, print e w'))"
    unfolding kill_process_def by (rule and_then_Returned)
  also have "\<dots> = (Returned, w\<lparr>signals := s, open_fds := f,
      printed := (case x of Returned \<Rightarrow> printed w | Raised e \<Rightarrow> printed w @ [e])\<rparr>)"
    unfolding c by (cases x) (simp_all add: print_def)
  finally show ?thesis by blast
qed

lemma close_subscribers_loop_id: "close_subscribers_loop xs w = w"
  by (induction xs arbitrary: w) (simp_all add: unawaited_def)

lemma shutdown_frame_aux:
  "\<exists>s f p. shutdown w
     = (Returned, w\<lparr>self := (self w)\<lparr>subscribers := []\<rparr>, signals := s, open_fds := f, printed := p\<rparr>)"
proof -
  obtain s f p where k: "kill_process w = (Returned, w\<lparr>signals := s, open_fds := f, printed := p\<rparr>)"
    using kill_process_frame by blast
  have "shutdown w = and_then close_subscribers
          (\<lambda>w. (Returned, w\<lparr>self := (self w)\<lparr>subscribers := []\<rparr>\<rparr>))
          (w\<lparr>signals := s, open_fds := f, printed := p\<rparr>)"
    unfolding shutdown_def using k by (rule and_then_Returned)
  also have "\<dots> = (Returned, w\<lparr>self := (self w)\<lparr>subscribers := []\<rparr>, signals := s, open_fds := f, printed := p\<rparr>)"
    by (simp add: and_then_def close_subscribers_def close_subscribers_loop_id)
  finally show ?thesis by blast
qed

lemma shutdown_returns: "fst (shutdown w) = Returned"
  using shutdown_frame_aux [of w] by auto

lemma shutdown_twice_returns: "fst (shutdown (snd (shutdown w))) = Returned"
  by (rule shutdown_returns)

lemma serialize_subscribers: "serialize (t\<lparr>subscribers := xs\<rparr>) = serialize t"
  by (simp add: serialize_def is_process_started_def is_process_completed_def is_process_alive_def)

text \<open>
  Claim C10. \<open>shutdown\<close> leaves the buffer, the stored rows and columns, the command
  line and the process object with its pid and return code as they were, so that
  \<open>serialize\<close> answers the same before and after. Of the whole world it changes
  the registry, which becomes empty, the signals sent (the kill), the open
  descriptors, and what was printed when closing a descriptor failed; nothing else.
\<close>

theorem shutdown_frame:
  "buffer (self (snd (shutdown w))) = buffer (self w)
   \<and> rows (self (snd (shutdown w))) = rows (self w)
   \<and> cols (self (snd (shutdown w))) = cols (self w)
   \<and> cmdline (self (snd (shutdown w))) = cmdline (self w)
   \<and> process (self (snd (shutdown w))) = process (self w)
   \<and> serialize (self (snd (shutdown w))) = serialize (self w)
   \<and> snd (shutdown w)
       = w\<lparr>self := (self w)\<lparr>subscribers := []\<rparr>,
           signals := signals (snd (shutdown w)),
           open_fds := open_fds (snd (shutdown w)),
           printed := printed (snd (shutdown w))\<rparr>"
proof -
  obtain s f p where "shutdown w
     = (Returned, w\<lparr>self := (self w)\<lparr>subscribers := []\<rparr>, signals := s, open_fds := f, printed := p\<rparr>)"
    using shutdown_frame_aux by blast
  then show ?thesis by (simp add: serialize_subscribers)
qed


subsection \<open>The running world\<close>

lemma digits_24: "digits 24 = ''24''"
  by (simp add: digits.simps [of 24] digits.simps [of 2])

lemma digits_80: "digits 80 = ''80''"
  by (simp add: digits.simps [of 80] digits.simps [of 8])

lemma running_world_eq:
  "running_world =
     \<lparr>self = \<lparr>cmdline = ''/bin/bash'', process = Some \<lparr>pid = 1234, returncode = None\<rparr>,
              master_fd = Fd 5, slave_fd = Fd 6, subscribers = [0], buffer = [],
              cols = 80, rows = 24\<rparr>,
      sockets = (\<lambda>ws. \<lparr>closed = False, sent = []\<rparr>)(0 := \<lparr>closed = False, sent = [[]]\<rparr>),
      open_fds = [5, 6], winsize = (\<lambda>fd. None)(5 := Some [24, 80, 0, 0]), pending = [],
      written = [], signals = [],
      environ = [(''HOME'', ''/home/deck'')], ttynames = (\<lambda>fd. Some ''/dev/pts/0''),
      fsync_supported = False,
      spawned = [(1234, ''/bin/bash'', 6,
                  [(''HOME'', ''/home/deck''), (''TERM'', ''xterm-256color''),
                   (''PWD'', ''/home/deck''), (''SSH_TTY'', ''/dev/pts/0''),
                   (''LINES'', ''24''), (''COLUMNS'', ''80'')])],
      tasks = [Process_subscriber 0, Read_output_loop], printed = []\<rparr>"
  by (simp add: running_world_def process_subscriber_begin_def and_then_def ws_send_def
      add_subscriber_def is_subscriber_def ensure_future_def new_world_def init_def
      is_process_started_def start_def start_process_def good_answers_def
      change_pty_size_def struct_pack_HHHH_def ioctl_TIOCSWINSZ_def get_terminal_env_def
      os_ttyname_def py_str_def digits_24 digits_80)


lemma shutdown_running_world:
  "shutdown running_world
     = (Returned, running_world\<lparr>self := (self running_world)\<lparr>subscribers := []\<rparr>,
                   signals := [(1234, SIGKILL)], open_fds := []\<rparr>)"
  by (simp add: running_world_eq shutdown_def and_then_def kill_process_def is_alive_iff
      process_kill_def process_send_signal_def close_fd_attr_def os_close_def
      close_subscribers_def close_subscribers_loop_id)

text \<open>
  Claim C5, on the running world, whose registry holds the open stream 0:
  \<open>shutdown\<close> returns and empties the registry, and the stream still reports open.
  The statement \<^verbatim>\<open>ws.close()\<close> in \<^verbatim>\<open>close_subscribers\<close> calls a coroutine
  and drops it.
\<close>

theorem shutdown_leaves_streams_open:
  "subscribers (self running_world) = [0]
   \<and> \<not> closed (sockets running_world 0)
   \<and> fst (shutdown running_world) = Returned
   \<and> subscribers (self (snd (shutdown running_world))) = []
   \<and> \<not> closed (sockets (snd (shutdown running_world)) 0)"
  by (simp add: shutdown_running_world) (simp add: running_world_eq)

subsection \<open>Window size\<close>

lemma change_pty_size_stores:
  "rows (self (snd (change_pty_size r c w))) = r \<and> cols (self (snd (change_pty_size r c w))) = c
   \<and> process (self (snd (change_pty_size r c w))) = process (self w)
   \<and> master_fd (self (snd (change_pty_size r c w))) = master_fd (self w)
   \<and> written (snd (change_pty_size r c w)) = written w"
  by (simp add: change_pty_size_def ioctl_TIOCSWINSZ_def Let_def
      split: fd_attr.splits sum.splits)

lemma change_pty_size_applied:
  "fst (change_pty_size r c w) = Returned \<Longrightarrow>
   \<exists>fd. master_fd (self w) = Fd fd \<and> winsize (snd (change_pty_size r c w)) fd = Some [r, c, 0, 0]"
  by (auto simp: change_pty_size_def ioctl_TIOCSWINSZ_def struct_pack_HHHH_def Let_def
      split: fd_attr.splits sum.splits if_splits)

lemma signal_then_await:
  "process (self w) = Some p \<Longrightarrow>
   and_then (and_then (process_send_signal SIGWINCH) await_None) g w
     = (Raised TypeError, w\<lparr>signals := signals w @ [(pid p, SIGWINCH)]\<rparr>)"
  by (simp add: and_then_def process_send_signal_def await_None_def)

lemma change_window_size_alive:
  assumes "is_process_alive (self w)"
  shows "change_window_size r c w =
     (case change_pty_size r c w of
        (Raised e, w1) \<Rightarrow> (Raised e, w1)
      | (Returned, w1) \<Rightarrow>
          (Raised TypeError,
           w1\<lparr>signals := signals w1 @ [(pid (the (process (self w))), SIGWINCH)]\<rparr>))"
proof -
  obtain p where p: "process (self w) = Some p"
    using assms by (auto simp: is_alive_iff)
  obtain x w1 where c: "change_pty_size r c w = (x, w1)"
    by (cases "change_pty_size r c w")
  have "process (self w1) = Some p"
    using change_pty_size_stores [of r c w] c p by simp
  then have "and_then (and_then (process_send_signal SIGWINCH) await_None)
       (write_stdin (resize_sequence r c)) w1
     = (Raised TypeError, w1\<lparr>signals := signals w1 @ [(pid p, SIGWINCH)]\<rparr>)"
    by (rule signal_then_await)
  then show ?thesis
    using assms c p by (cases x) (simp_all add: change_window_size_def and_then_def)
qed

lemma change_window_size_not_alive:
  "\<not> is_process_alive (self w) \<Longrightarrow> change_window_size r c w = (Returned, w)"
  by (simp add: change_window_size_def)

lemma change_window_size_never_writes:
  "written (snd (change_window_size r c w)) = written w"
proof (cases "is_process_alive (self w)")
  case True
  show ?thesis
    using change_pty_size_stores [of r c w]
    by (cases "change_pty_size r c w"; cases "fst (change_pty_size r c w)")
      (simp_all add: change_window_size_alive [OF True])
next
  case False
  then show ?thesis by (simp add: change_window_size_not_alive)
qed

lemma change_window_size_raises:
  "is_process_alive (self w) \<Longrightarrow> \<exists>e. fst (change_window_size r c w) = Raised e"
  by (cases "change_pty_size r c w"; cases "fst (change_pty_size r c w)")
    (simp_all add: change_window_size_alive)

lemma resize_sequence_30_100: "resize_sequence 30 100 = CHR 0x1B # ''[8;30;100t''"
  by (simp add: resize_sequence_def py_str_def digits.simps [of 30] digits.simps [of 3]
      digits.simps [of 100] digits.simps [of 10] digits.simps [of "Suc 0"])

text \<open>
  Claim C3, on the running world: \<open>change_window_size 30 100\<close> stores the new size,
  applies it to the device and sends the window-size signal, and then raises
  \<open>TypeError\<close> at the \<^verbatim>\<open>await\<close> of what \<^verbatim>\<open>send_signal\<close> returned. The write of
  the escape sequence, which comes after it, is not reached: nothing was written to
  the master.
\<close>

theorem resize_raises_before_escape_sequence:
  "is_process_alive (self running_world)
   \<and> change_window_size 30 100 running_world
       = (Raised TypeError,
          running_world\<lparr>self := (self running_world)\<lparr>rows := 30, cols := 100\<rparr>,
                        winsize := (winsize running_world)(5 := Some [30, 100, 0, 0]),
                        signals := [(1234, SIGWINCH)]\<rparr>)
   \<and> written (snd (change_window_size 30 100 running_world)) = []
   \<and> (5, resize_sequence 30 100) \<notin> set (written (snd (change_window_size 30 100 running_world)))"
proof -
  have a: "is_process_alive (self running_world)"
    by (simp add: running_world_eq is_alive_iff)
  have "change_pty_size 30 100 running_world
      = (Returned, running_world\<lparr>self := (self running_world)\<lparr>rows := 30, cols := 100\<rparr>,
                        winsize := (winsize running_world)(5 := Some [30, 100, 0, 0])\<rparr>)"
    by (simp add: running_world_eq change_pty_size_def struct_pack_HHHH_def ioctl_TIOCSWINSZ_def)
  then have "change_window_size 30 100 running_world
       = (Raised TypeError,
          running_world\<lparr>self := (self running_world)\<lparr>rows := 30, cols := 100\<rparr>,
                        winsize := (winsize running_world)(5 := Some [30, 100, 0, 0]),
                        signals := [(1234, SIGWINCH)]\<rparr>)"
    by (simp add: change_window_size_alive [OF a]) (simp add: running_world_eq)
  moreover have "written running_world = []"
    by (simp add: running_world_eq)
  ultimately show ?thesis using a by simp
qed

text \<open>
  Claim C4 as stated fails. On the running world a resize to 70000 rows cannot be
  packed into an unsigned short, and a resize after \<open>shutdown\<close> closed the
  descriptors (the return code is not recorded yet) fails in \<^verbatim>\<open>ioctl\<close>: in both
  the device keeps its window size of 24 by 80 and the fields hold the new values.
\<close>

theorem failed_resize_changes_rows_cols:
  "fst (change_window_size 70000 80 running_world) = Raised StructError
   \<and> winsize (snd (change_window_size 70000 80 running_world)) 5 = Some [24, 80, 0, 0]
   \<and> rows (self running_world) = 24
   \<and> rows (self (snd (change_window_size 70000 80 running_world))) = 70000
   \<and> fst (change_window_size 30 100 (snd (shutdown running_world))) = Raised OSError
   \<and> winsize (snd (change_window_size 30 100 (snd (shutdown running_world)))) 5
       = Some [24, 80, 0, 0]
   \<and> rows (self (snd (shutdown running_world))) = 24
   \<and> cols (self (snd (shutdown running_world))) = 80
   \<and> rows (self (snd (change_window_size 30 100 (snd (shutdown running_world))))) = 30
   \<and> cols (self (snd (change_window_size 30 100 (snd (shutdown running_world))))) = 100"
proof -
  have a: "is_process_alive (self running_world)"
    by (simp add: running_world_eq is_alive_iff)
  have 1: "change_pty_size 70000 80 running_world
      = (Raised StructError, running_world\<lparr>self := (self running_world)\<lparr>rows := 70000, cols := 80\<rparr>\<rparr>)"
    by (simp add: running_world_eq change_pty_size_def struct_pack_HHHH_def)
  let ?w = "snd (shutdown running_world)"
  have b: "is_process_alive (self ?w)"
    by (simp add: shutdown_running_world) (simp add: running_world_eq is_alive_iff)
  have 2: "change_pty_size 30 100 ?w
      = (Raised OSError, ?w\<lparr>self := (self ?w)\<lparr>rows := 30, cols := 100\<rparr>\<rparr>)"
    by (simp add: shutdown_running_world)
      (simp add: running_world_eq change_pty_size_def struct_pack_HHHH_def ioctl_TIOCSWINSZ_def)
  have 3: "winsize ?w 5 = Some [24, 80, 0, 0]" "rows (self ?w) = 24" "cols (self ?w) = 80"
    "winsize running_world 5 = Some [24, 80, 0, 0]" "rows (self running_world) = 24"
    by (simp_all add: shutdown_running_world) (simp_all add: running_world_eq)
  show ?thesis
    by (simp add: change_window_size_alive [OF a] change_window_size_alive [OF b] 1 2 3)
qed

text \<open>
  Claim C4, amended. A resize requested while the process is alive leaves the stored
  rows and columns equal to the values requested, whether applying them to the device
  succeeded or not: the fields are assigned first and the device is set afterwards.
  Where applying them succeeded, the device holds the same size as the fields. A
  resize requested while the process is not alive changes nothing.
\<close>

theorem resize_stores_requested_size:
  "(is_process_alive (self w) \<longrightarrow>
      rows (self (snd (change_window_size r c w))) = r
      \<and> cols (self (snd (change_window_size r c w))) = c)
   \<and> (is_process_alive (self w) \<and> fst (change_pty_size r c w) = Returned \<longrightarrow>
        (\<exists>fd. master_fd (self w) = Fd fd
           \<and> winsize (snd (change_window_size r c w)) fd = Some [r, c, 0, 0]))
   \<and> (\<not> is_process_alive (self w) \<longrightarrow> change_window_size r c w = (Returned, w))"
proof (intro conjI impI)
  assume a: "is_process_alive (self w)"
  show "rows (self (snd (change_window_size r c w))) = r"
    using change_pty_size_stores [of r c w]
    by (cases "change_pty_size r c w"; cases "fst (change_pty_size r c w)")
      (simp_all add: change_window_size_alive [OF a])
  show "cols (self (snd (change_window_size r c w))) = c"
    using change_pty_size_stores [of r c w]
    by (cases "change_pty_size r c w"; cases "fst (change_pty_size r c w)")
      (simp_all add: change_window_size_alive [OF a])
next
  assume "is_process_alive (self w) \<and> fst (change_pty_size r c w) = Returned"
  then have a: "is_process_alive (self w)" and ok: "fst (change_pty_size r c w) = Returned"
    by simp_all
  from change_pty_size_applied [OF ok] obtain fd where
    fd: "master_fd (self w) = Fd fd" "winsize (snd (change_pty_size r c w)) fd = Some [r, c, 0, 0]"
    by blast
  have "winsize (snd (change_window_size r c w)) fd = Some [r, c, 0, 0]"
    using ok fd(2) by (cases "change_pty_size r c w") (simp add: change_window_size_alive [OF a])
  with fd(1) show "\<exists>fd. master_fd (self w) = Fd fd
           \<and> winsize (snd (change_window_size r c w)) fd = Some [r, c, 0, 0]"
    by blast
next
  assume "\<not> is_process_alive (self w)"
  then show "change_window_size r c w = (Returned, w)"
    by (rule change_window_size_not_alive)
qed

theorem resize_stores_requested_size_witness:
  "is_process_alive (self running_world)
   \<and> fst (change_pty_size 30 100 running_world) = Returned
   \<and> master_fd (self running_world) = Fd 5
   \<and> rows (self (snd (change_window_size 30 100 running_world))) = 30
   \<and> cols (self (snd (change_window_size 30 100 running_world))) = 100
   \<and> winsize (snd (change_window_size 30 100 running_world)) 5 = Some [30, 100, 0, 0]
   \<and> \<not> is_process_alive (self new_world)
   \<and> change_window_size 30 100 new_world = (Returned, new_world)"
proof -
  have a: "is_process_alive (self running_world)"
    by (simp add: running_world_eq is_alive_iff)
  have ok: "fst (change_pty_size 30 100 running_world) = Returned"
    by (simp add: running_world_eq change_pty_size_def struct_pack_HHHH_def ioctl_TIOCSWINSZ_def)
  have m: "master_fd (self running_world) = Fd 5"
    by (simp add: running_world_eq)
  have n: "\<not> is_process_alive (self new_world)"
    by (simp add: new_world_def init_def is_alive_iff)
  from resize_stores_requested_size [of running_world 30 100]
    resize_stores_requested_size [of new_world 30 100] a ok m n
  show ?thesis by auto
qed

subsection \<open>Broadcast\<close>

lemma deliver_Nil: "deliver data [] socks = socks"
  by (rule ext) (simp add: deliver_def)

lemma deliver_closed:
  "closed (socks ws) \<Longrightarrow> deliver data (ws # rest) socks = deliver data rest socks"
  by (rule ext) (auto simp: deliver_def)

lemma deliver_open:
  "\<not> closed (socks ws) \<Longrightarrow>
   deliver data rest (socks(ws := (socks ws)\<lparr>sent := sent (socks ws) @ [data]\<rparr>))
     = deliver data (ws # rest) socks"
  by (rule ext) (simp add: deliver_def replicate_append_same [symmetric])

lemma broadcast_loop_eq:
  "broadcast_loop data xs cl w
     = (Returned, cl @ filter (\<lambda>ws. closed (sockets w ws)) xs,
        w\<lparr>sockets := deliver data xs (sockets w)\<rparr>)"
proof (induction xs arbitrary: cl w)
  case Nil
  show ?case by (simp add: deliver_Nil)
next
  case (Cons ws rest)
  show ?case
  proof (cases "closed (sockets w ws)")
    case True
    then show ?thesis by (simp add: Cons.IH deliver_closed)
  next
    case False
    let ?w' = "w\<lparr>sockets := (sockets w)(ws := (sockets w ws)\<lparr>sent := sent (sockets w ws) @ [data]\<rparr>)\<rparr>"
    have c: "closed (sockets ?w' v) = closed (sockets w v)" for v
      by simp
    have "broadcast_loop data (ws # rest) cl w = broadcast_loop data rest cl ?w'"
      using False by (simp add: ws_send_def)
    also have "\<dots> = (Returned, cl @ filter (\<lambda>v. closed (sockets ?w' v)) rest,
        ?w'\<lparr>sockets := deliver data rest (sockets ?w')\<rparr>)"
      by (rule Cons.IH)
    also have "filter (\<lambda>v. closed (sockets ?w' v)) rest
        = filter (\<lambda>v. closed (sockets w v)) (ws # rest)"
      using False by (simp only: c filter.simps if_False)
    also have "?w'\<lparr>sockets := deliver data rest (sockets ?w')\<rparr>
        = w\<lparr>sockets := deliver data (ws # rest) (sockets w)\<rparr>"
      using deliver_open [of "sockets w" ws data rest] False by simp
    finally show ?thesis .
  qed
qed

lemma remove_subscriber_closed:
  "closed (sockets w ws) \<Longrightarrow>
   remove_subscriber ws w = w\<lparr>self := (self w)\<lparr>subscribers := remove1 ws (subscribers (self w))\<rparr>\<rparr>"
  by (simp add: remove_subscriber_def is_subscriber_iff remove1_idem)

lemma fold_remove_subscriber_closed:
  "\<forall>ws \<in> set cl. closed (sockets w ws) \<Longrightarrow>
   fold remove_subscriber cl w
     = w\<lparr>self := (self w)\<lparr>subscribers := fold remove1 cl (subscribers (self w))\<rparr>\<rparr>"
proof (induction cl arbitrary: w)
  case Nil
  show ?case by simp
next
  case (Cons c cl)
  let ?w' = "w\<lparr>self := (self w)\<lparr>subscribers := remove1 c (subscribers (self w))\<rparr>\<rparr>"
  have "fold remove_subscriber (c # cl) w = fold remove_subscriber cl ?w'"
    using Cons.prems by (simp add: remove_subscriber_closed)
  also have "\<dots> = ?w'\<lparr>self := (self ?w')\<lparr>subscribers := fold remove1 cl (subscribers (self ?w'))\<rparr>\<rparr>"
    using Cons.prems by (intro Cons.IH) simp
  finally show ?case by simp
qed

lemma fold_remove1_Cons:
  "a \<notin> set ys \<Longrightarrow> fold remove1 ys (a # xs) = a # fold remove1 ys xs"
  by (induction ys arbitrary: xs) auto

lemma fold_remove1_filter:
  "fold remove1 (filter P xs) xs = filter (\<lambda>x. \<not> P x) xs"
  by (induction xs) (simp_all add: fold_remove1_Cons)

lemma broadcast_subscribers_eq:
  "broadcast_subscribers data w
     = (Returned,
        w\<lparr>self := (self w)\<lparr>subscribers :=
                     filter (\<lambda>ws. \<not> closed (sockets w ws)) (subscribers (self w))\<rparr>,
          sockets := deliver data (subscribers (self w)) (sockets w)\<rparr>)"
proof -
  let ?cl = "filter (\<lambda>ws. closed (sockets w ws)) (subscribers (self w))"
  let ?w' = "w\<lparr>sockets := deliver data (subscribers (self w)) (sockets w)\<rparr>"
  have "\<forall>ws \<in> set ?cl. closed (sockets ?w' ws)"
    by (simp add: deliver_def)
  then have "fold remove_subscriber ?cl ?w'
      = ?w'\<lparr>self := (self ?w')\<lparr>subscribers := fold remove1 ?cl (subscribers (self ?w'))\<rparr>\<rparr>"
    by (rule fold_remove_subscriber_closed)
  then show ?thesis
    by (simp add: broadcast_subscribers_def broadcast_loop_eq fold_remove1_filter)
qed

text \<open>
  Claim C6. \<open>broadcast_subscribers\<close> returns; the registry it leaves is the old one
  without the subscribers whose stream was closed, in the old order; a closed
  subscriber was sent nothing and is no longer registered; an open one is still
  registered, is still open and has received the payload as its latest message (once,
  the registry having no duplicates); and nothing else in the world has changed.
\<close>

theorem broadcast_delivers_and_prunes:
  "fst (broadcast_subscribers data w) = Returned
   \<and> subscribers (self (snd (broadcast_subscribers data w)))
       = filter (\<lambda>ws. \<not> closed (sockets w ws)) (subscribers (self w))
   \<and> (\<forall>ws. closed (sockets w ws) \<longrightarrow>
         ws \<notin> set (subscribers (self (snd (broadcast_subscribers data w))))
         \<and> sockets (snd (broadcast_subscribers data w)) ws = sockets w ws)
   \<and> (\<forall>ws \<in> set (subscribers (self w)). \<not> closed (sockets w ws) \<longrightarrow>
         ws \<in> set (subscribers (self (snd (broadcast_subscribers data w))))
         \<and> \<not> closed (sockets (snd (broadcast_subscribers data w)) ws)
         \<and> sent (sockets (snd (broadcast_subscribers data w)) ws)
             = sent (sockets w ws) @ replicate (count_list (subscribers (self w)) ws) data
         \<and> (distinct (subscribers (self w)) \<longrightarrow>
              sent (sockets (snd (broadcast_subscribers data w)) ws)
                = sent (sockets w ws) @ [data]))
   \<and> (\<forall>ws. ws \<notin> set (subscribers (self w)) \<longrightarrow>
         sockets (snd (broadcast_subscribers data w)) ws = sockets w ws)
   \<and> snd (broadcast_subscribers data w)
       = w\<lparr>self := (self w)\<lparr>subscribers := subscribers (self (snd (broadcast_subscribers data w)))\<rparr>,
           sockets := sockets (snd (broadcast_subscribers data w))\<rparr>"
proof -
  have one: "distinct xs \<Longrightarrow> x \<in> set xs \<Longrightarrow> replicate (count_list xs x) d = [d]" for xs :: "ws_ref list" and x and d :: bytes
    by (simp add: distinct_count_list)
  have zero: "x \<notin> set xs \<Longrightarrow> replicate (count_list xs x) d = []" for xs :: "ws_ref list" and x and d :: bytes
    by (simp add: count_list_0_iff)
  show ?thesis
    unfolding broadcast_subscribers_eq
    by (simp add: deliver_def one zero)
qed

lemma two_subscribers_eq:
  "two_subscribers
     = running_world\<lparr>self := (self running_world)\<lparr>subscribers := [0, 1]\<rparr>,
         sockets := (sockets running_world)(1 := \<lparr>closed = True, sent = []\<rparr>),
         tasks := [Process_subscriber 0, Read_output_loop, Process_subscriber 1]\<rparr>"
  by (simp add: two_subscribers_def ws_close_def add_subscriber_def is_subscriber_def
      ensure_future_def running_world_eq)

theorem broadcast_delivers_and_prunes_witness:
  "subscribers (self two_subscribers) = [0, 1]
   \<and> \<not> closed (sockets two_subscribers 0) \<and> closed (sockets two_subscribers 1)
   \<and> sent (sockets two_subscribers 0) = [[]]
   \<and> fst (broadcast_subscribers ''hi'' two_subscribers) = Returned
   \<and> subscribers (self (snd (broadcast_subscribers ''hi'' two_subscribers))) = [0]
   \<and> sent (sockets (snd (broadcast_subscribers ''hi'' two_subscribers)) 0) = [[], ''hi'']
   \<and> sent (sockets (snd (broadcast_subscribers ''hi'' two_subscribers)) 1) = []"
proof -
  have s: "subscribers (self two_subscribers) = [0, 1]"
    and o: "\<not> closed (sockets two_subscribers 0)" and c: "closed (sockets two_subscribers 1)"
    and m: "sent (sockets two_subscribers 0) = [[]]" "sent (sockets two_subscribers 1) = []"
    by (simp_all add: two_subscribers_eq) (simp_all add: running_world_eq)
  from broadcast_delivers_and_prunes [of "''hi''" two_subscribers] s o c m
  show ?thesis by simp
qed

subsection \<open>The handshake\<close>





subsection \<open>The output pump\<close>

lemma record_exit_fields:
  "buffer (self (record_exit x w)) = buffer (self w)"
  "subscribers (self (record_exit x w)) = subscribers (self w)"
  "sockets (record_exit x w) = sockets w"
  "pending (record_exit x w) = pending w"
  "printed (record_exit x w) = printed w"
  by (simp_all add: record_exit_def split: option.splits)

lemma record_exit_None: "record_exit None w = w"
  by (simp add: record_exit_def)

lemma record_exit_not_alive: "\<not> is_process_alive (self (record_exit (Some c) w))"
  by (auto simp: record_exit_def is_alive_iff split: option.splits)

lemma read_output_loop_not_alive:
  "\<not> is_process_alive (self w) \<Longrightarrow> read_output_loop evs w = (Finished, w)"
  by (cases evs) simp_all

lemma read_output_loop_exit:
  "\<exists>ev \<in> set evs. child_exit ev \<noteq> None \<Longrightarrow> fst (read_output_loop evs w) = Finished"
proof (induction evs arbitrary: w)
  case Nil
  then show ?case by simp
next
  case (Cons ev evs)
  show ?case
  proof (cases "is_process_alive (self w)")
    case False
    then show ?thesis by (simp add: read_output_loop_not_alive)
  next
    case True
    show ?thesis
    proof (cases "child_exit ev")
      case None
      with Cons.prems have "\<exists>ev \<in> set evs. child_exit ev \<noteq> None" by simp
      then have "fst (read_output_loop evs (read_output_iteration ev w)) = Finished"
        by (rule Cons.IH)
      with True show ?thesis by simp
    next
      case (Some c)
      then have "\<not> is_process_alive (self (read_output_iteration ev w))"
        by (simp add: read_output_iteration_def record_exit_not_alive)
      then have "read_output_loop evs (read_output_iteration ev w)
          = (Finished, read_output_iteration ev w)"
        by (rule read_output_loop_not_alive)
      with True show ?thesis by simp
    qed
  qed
qed

lemma read_output_ok:
  assumes "master_fd (self w) = Fd fd" "fd \<in> set (open_fds w)" "\<not> read_fails ev"
  defines "chunk \<equiv> take 50 (pending w @ child_output ev)"
  shows "read_output ev w =
     (Returned,
      if chunk = [] then w\<lparr>pending := drop 50 (pending w @ child_output ev)\<rparr>
      else w\<lparr>pending := drop 50 (pending w @ child_output ev),
             self := (put_buffer chunk (self w))
               \<lparr>subscribers := filter (\<lambda>ws. \<not> closed (sockets w ws)) (subscribers (self w))\<rparr>,
             sockets := deliver chunk (subscribers (self w)) (sockets w)\<rparr>)"
proof -
  let ?w1 = "w\<lparr>pending := drop 50 (pending w @ child_output ev)\<rparr>"
  have r: "os_read fd 50 ev w = (Inr chunk, ?w1)"
    using assms(2,3) by (simp add: os_read_def chunk_def)
  show ?thesis
  proof (cases "chunk = []")
    case True
    with r assms(1) show ?thesis by (simp add: read_output_def)
  next
    case False
    have "read_output ev w = broadcast_subscribers chunk (?w1\<lparr>self := put_buffer chunk (self ?w1)\<rparr>)"
      using r assms(1) False by (simp add: read_output_def)
    also have "\<dots> = (Returned,
        w\<lparr>pending := drop 50 (pending w @ child_output ev),
             self := (put_buffer chunk (self w))
               \<lparr>subscribers := filter (\<lambda>ws. \<not> closed (sockets w ws)) (subscribers (self w))\<rparr>,
             sockets := deliver chunk (subscribers (self w)) (sockets w)\<rparr>)"
      by (simp add: broadcast_subscribers_eq put_buffer_def)
    finally show ?thesis using False by simp
  qed
qed

lemma read_output_error:
  assumes "master_fd (self w) = Fd fd" "fd \<notin> set (open_fds w) \<or> read_fails ev"
  shows "read_output ev w = (Raised OSError, w\<lparr>pending := pending w @ child_output ev\<rparr>)"
  using assms by (auto simp: read_output_def os_read_def)

text \<open>
  Claim C7. The loop of the pump ends at once when the process is not alive, and runs
  one more turn when it is. A turn whose read succeeds takes at most 50 of the bytes
  queued at the master and leaves the rest queued; if it took any, they are appended
  to the ring buffer and the same bytes are broadcast to the registry as it was; if it
  took none, buffer, streams and registry stay as they are; nothing is printed.
  A turn whose read fails prints the error and changes neither buffer nor streams nor
  registry, and the loop goes on as after any turn. Once the exit of the child has
  been recorded during some turn, the loop ends, whatever comes after.
\<close>

theorem output_pump:
  "(\<not> is_process_alive (self w) \<longrightarrow> read_output_loop evs w = (Finished, w))
   \<and> (is_process_alive (self w) \<longrightarrow>
        read_output_loop (ev # evs) w = read_output_loop evs (read_output_iteration ev w))
   \<and> (master_fd (self w) = Fd fd \<and> fd \<in> set (open_fds w) \<and> \<not> read_fails ev \<longrightarrow>
        length (take 50 (pending w @ child_output ev)) \<le> 50
        \<and> pending (read_output_iteration ev w) = drop 50 (pending w @ child_output ev)
        \<and> printed (read_output_iteration ev w) = printed w
        \<and> (take 50 (pending w @ child_output ev) \<noteq> [] \<longrightarrow>
             buffer (self (read_output_iteration ev w))
               = buffer (put_buffer (take 50 (pending w @ child_output ev)) (self w))
             \<and> sockets (read_output_iteration ev w)
               = sockets (snd (broadcast_subscribers (take 50 (pending w @ child_output ev)) w))
             \<and> subscribers (self (read_output_iteration ev w))
               = subscribers (self
                   (snd (broadcast_subscribers (take 50 (pending w @ child_output ev)) w))))
        \<and> (take 50 (pending w @ child_output ev) = [] \<longrightarrow>
             buffer (self (read_output_iteration ev w)) = buffer (self w)
             \<and> sockets (read_output_iteration ev w) = sockets w
             \<and> subscribers (self (read_output_iteration ev w)) = subscribers (self w)))
   \<and> (master_fd (self w) = Fd fd \<and> (fd \<notin> set (open_fds w) \<or> read_fails ev) \<longrightarrow>
        printed (read_output_iteration ev w) = printed w @ [OSError]
        \<and> buffer (self (read_output_iteration ev w)) = buffer (self w)
        \<and> sockets (read_output_iteration ev w) = sockets w
        \<and> subscribers (self (read_output_iteration ev w)) = subscribers (self w))
   \<and> ((\<exists>ev \<in> set evs. child_exit ev \<noteq> None) \<longrightarrow> fst (read_output_loop evs w) = Finished)"
proof (intro conjI impI)
  assume "\<not> is_process_alive (self w)"
  then show "read_output_loop evs w = (Finished, w)"
    by (rule read_output_loop_not_alive)
next
  assume "is_process_alive (self w)"
  then show "read_output_loop (ev # evs) w = read_output_loop evs (read_output_iteration ev w)"
    by simp
next
  assume "\<exists>ev \<in> set evs. child_exit ev \<noteq> None"
  then show "fst (read_output_loop evs w) = Finished"
    by (rule read_output_loop_exit)
next
  assume a: "master_fd (self w) = Fd fd \<and> (fd \<notin> set (open_fds w) \<or> read_fails ev)"
  then have r: "read_output ev w = (Raised OSError, w\<lparr>pending := pending w @ child_output ev\<rparr>)"
    using read_output_error [of w fd ev] by blast
  show "printed (read_output_iteration ev w) = printed w @ [OSError]"
    "buffer (self (read_output_iteration ev w)) = buffer (self w)"
    "sockets (read_output_iteration ev w) = sockets w"
    "subscribers (self (read_output_iteration ev w)) = subscribers (self w)"
    by (simp_all add: read_output_iteration_def r record_exit_fields print_def)
next
  assume a: "master_fd (self w) = Fd fd \<and> fd \<in> set (open_fds w) \<and> \<not> read_fails ev"
  let ?chunk = "take 50 (pending w @ child_output ev)"
  from a have r: "read_output ev w =
     (Returned,
      if ?chunk = [] then w\<lparr>pending := drop 50 (pending w @ child_output ev)\<rparr>
      else w\<lparr>pending := drop 50 (pending w @ child_output ev),
             self := (put_buffer ?chunk (self w))
               \<lparr>subscribers := filter (\<lambda>ws. \<not> closed (sockets w ws)) (subscribers (self w))\<rparr>,
             sockets := deliver ?chunk (subscribers (self w)) (sockets w)\<rparr>)"
    using read_output_ok [of w fd ev] by blast
  show "length ?chunk \<le> 50" by simp
  show "pending (read_output_iteration ev w) = drop 50 (pending w @ child_output ev)"
    by (simp add: read_output_iteration_def r record_exit_fields)
  show "printed (read_output_iteration ev w) = printed w"
    by (simp add: read_output_iteration_def r record_exit_fields)
  {
    assume n: "?chunk \<noteq> []"
    have r': "read_output ev w = (Returned,
        w\<lparr>pending := drop 50 (pending w @ child_output ev),
             self := (put_buffer ?chunk (self w))
               \<lparr>subscribers := filter (\<lambda>ws. \<not> closed (sockets w ws)) (subscribers (self w))\<rparr>,
             sockets := deliver ?chunk (subscribers (self w)) (sockets w)\<rparr>)"
      unfolding r using n by (simp only: if_False refl)
    show "buffer (self (read_output_iteration ev w)) = buffer (put_buffer ?chunk (self w))"
      by (simp add: read_output_iteration_def r' record_exit_fields put_buffer_def)
    show "sockets (read_output_iteration ev w) = sockets (snd (broadcast_subscribers ?chunk w))"
      by (simp add: read_output_iteration_def r' record_exit_fields broadcast_subscribers_eq)
    show "subscribers (self (read_output_iteration ev w))
        = subscribers (self (snd (broadcast_subscribers ?chunk w)))"
      by (simp add: read_output_iteration_def r' record_exit_fields broadcast_subscribers_eq)
  }
  {
    assume e: "?chunk = []"
    have r': "read_output ev w
        = (Returned, w\<lparr>pending := drop 50 (pending w @ child_output ev)\<rparr>)"
      unfolding r using e by (simp only: if_True refl)
    show "buffer (self (read_output_iteration ev w)) = buffer (self w)"
      "sockets (read_output_iteration ev w) = sockets w"
      "subscribers (self (read_output_iteration ev w)) = subscribers (self w)"
      by (simp_all add: read_output_iteration_def r' record_exit_fields)
  }
qed

theorem output_pump_witness:
  "is_process_alive (self running_world)
   \<and> master_fd (self running_world) = Fd 5 \<and> 5 \<in> set (open_fds running_world)
   \<and> \<not> read_fails ev_hello
   \<and> take 50 (pending running_world @ child_output ev_hello) = ''hello''
   \<and> buffer (self (read_output_iteration ev_hello running_world)) = ''hello''
   \<and> sent (sockets (read_output_iteration ev_hello running_world) 0) = [[], ''hello'']
   \<and> read_output_loop [ev_hello] running_world
       = (Suspended, read_output_iteration ev_hello running_world)
   \<and> read_fails ev_error
   \<and> printed (read_output_iteration ev_error running_world) = [OSError]
   \<and> buffer (self (read_output_iteration ev_error running_world)) = []
   \<and> \<not> is_process_alive (self new_world)
   \<and> read_output_loop [ev_hello] new_world = (Finished, new_world)
   \<and> child_exit ev_exit \<noteq> None
   \<and> fst (read_output_loop [ev_hello, ev_exit, ev_hello] running_world) = Finished"
proof -
  have a: "is_process_alive (self running_world)"
    and m: "master_fd (self running_world) = Fd 5" "5 \<in> set (open_fds running_world)"
    and p: "pending running_world = []" "printed running_world = []"
      "buffer (self running_world) = []"
    by (simp_all add: running_world_eq is_alive_iff)
  have h: "\<not> read_fails ev_hello" "child_output ev_hello = ''hello''" "child_exit ev_hello = None"
    and e: "read_fails ev_error" and x: "child_exit ev_exit \<noteq> None"
    by (simp_all add: ev_hello_def ev_error_def ev_exit_def)
  have c: "take 50 (pending running_world @ child_output ev_hello) = ''hello''"
    by (simp add: p h)
  have n: "\<not> is_process_alive (self new_world)"
    by (simp add: new_world_def init_def is_alive_iff)
  have b: "buffer (put_buffer ''hello'' (self running_world)) = ''hello''"
    by (simp add: put_buffer_def p deque_append_def maxlen_def)
  have s: "sent (sockets (snd (broadcast_subscribers ''hello'' running_world)) 0) = [[], ''hello'']"
    by (simp add: broadcast_subscribers_eq deliver_def) (simp add: running_world_eq)
  have 1: "buffer (self (read_output_iteration ev_hello running_world)) = ''hello''"
    "sent (sockets (read_output_iteration ev_hello running_world) 0) = [[], ''hello'']"
    using output_pump [of running_world "[]" ev_hello 5] m h(1) b s unfolding c by simp_all
  have 2: "printed (read_output_iteration ev_error running_world) = [OSError]"
    "buffer (self (read_output_iteration ev_error running_world)) = []"
    using output_pump [of running_world "[]" ev_error 5] m e p by simp_all
  have 3: "read_output_loop [ev_hello] new_world = (Finished, new_world)"
    using output_pump [of new_world "[ev_hello]" ev_hello 5] n by simp
  have 4: "fst (read_output_loop [ev_hello, ev_exit, ev_hello] running_world) = Finished"
    using output_pump [of running_world "[ev_hello, ev_exit, ev_hello]" ev_hello 5] x by simp
  have "is_process_alive (self (read_output_iteration ev_hello running_world))"
    using a by (simp add: read_output_iteration_def h record_exit_None is_alive_iff
        read_output_ok [OF m h(1)] c put_buffer_def)
  then have 5: "read_output_loop [ev_hello] running_world
       = (Suspended, read_output_iteration ev_hello running_world)"
    using output_pump [of running_world "[]" ev_hello 5] a by simp
  from a m h(1) c 1 5 e 2 n 3 x 4 show ?thesis
    by blast
qed

subsection \<open>What shutdown and the loop of a subscriber leave alone\<close>

lemma shutdown_keeps_streams: "sockets (snd (shutdown w)) = sockets w"
proof -
  obtain s f p where "shutdown w
     = (Returned, w\<lparr>self := (self w)\<lparr>subscribers := []\<rparr>, signals := s, open_fds := f, printed := p\<rparr>)"
    using shutdown_frame_aux by blast
  then show ?thesis by simp
qed

lemma shutdown_empties_registry: "subscribers (self (snd (shutdown w))) = []"
proof -
  obtain s f p where "shutdown w
     = (Returned, w\<lparr>self := (self w)\<lparr>subscribers := []\<rparr>, signals := s, open_fds := f, printed := p\<rparr>)"
    using shutdown_frame_aux by blast
  then show ?thesis by simp
qed

lemma shutdown_keeps_started:
  "is_process_started (self (snd (shutdown w))) = is_process_started (self w)"
proof -
  obtain s f p where "shutdown w
     = (Returned, w\<lparr>self := (self w)\<lparr>subscribers := []\<rparr>, signals := s, open_fds := f, printed := p\<rparr>)"
    using shutdown_frame_aux by blast
  then show ?thesis by (simp add: is_process_started_def)
qed

lemma write_stdin_sockets: "sockets (snd (write_stdin input w)) = sockets w"
proof (cases "master_fd (self w)")
  case Unset
  then show ?thesis by (simp add: write_stdin_def and_then_def)
next
  case (Fd fd)
  then show ?thesis
    by (simp add: write_stdin_def and_then_def os_write_def os_fsync_def)
qed

lemma process_subscriber_iteration_sent:
  "sent (sockets (process_subscriber_iteration ev ws w) v) = sent (sockets w v)"
proof (cases ev)
  case (Recv_bytes b)
  then show ?thesis
    using write_stdin_sockets [of b w]
    by (cases "write_stdin b w"; cases "fst (write_stdin b w)")
      (simp_all add: process_subscriber_iteration_def ws_recv_def print_def)
next
  case (Recv_text s)
  then show ?thesis
    using write_stdin_sockets [of s w]
    by (cases "write_stdin s w"; cases "fst (write_stdin s w)")
      (simp_all add: process_subscriber_iteration_def ws_recv_def print_def)
next
  case Recv_closed
  then show ?thesis
    by (simp add: process_subscriber_iteration_def ws_recv_def print_def)
qed

lemma process_subscriber_loop_sent:
  "sent (sockets (snd (process_subscriber_loop evs ws w)) v) = sent (sockets w v)"
  by (induction evs arbitrary: w) (simp_all add: process_subscriber_iteration_sent)

lemma process_subscriber_loop_closed:
  "fst (process_subscriber_loop evs ws w) = Finished \<Longrightarrow>
   closed (sockets (snd (process_subscriber_loop evs ws w)) ws)"
  by (induction evs arbitrary: w) (simp_all split: if_splits)

subsection \<open>Attaching a subscriber\<close>














end
